theory Spec2Isabelle
  imports Main
begin

section \<open>Strings\<close>

text \<open>
  Strings are lists of 8-bit characters, read as the code units U+0000..U+00FF of a
  JavaScript string; a string with a code unit beyond U+00FF is not a value of this
  model. On these strings \<^verbatim>\<open>String.prototype.toLowerCase\<close> maps \<open>A\<close>..\<open>Z\<close> to
  \<open>a\<close>..\<open>z\<close>, maps the Latin-1 capitals U+00C0..U+00DE (the multiplication sign U+00D7
  is not one) to the letter 32 places further, and leaves every other character alone.
\<close>

definition lowerChar :: "char \<Rightarrow> char" where
  "lowerChar c =
     (case map_of (zip ''ABCDEFGHIJKLMNOPQRSTUVWXYZ'' ''abcdefghijklmnopqrstuvwxyz'') c of
        Some l \<Rightarrow> l
      | None \<Rightarrow>
          if 0xC0 \<le> (of_char c :: nat) \<and> (of_char c :: nat) \<le> 0xDE
             \<and> (of_char c :: nat) \<noteq> 0xD7
          then char_of ((of_char c :: nat) + 0x20)
          else c)"

definition toLowerCase :: "string \<Rightarrow> string" where
  "toLowerCase s = map lowerChar s"

text \<open>\<^verbatim>\<open>s.startsWith(p)\<close>, used by \<^verbatim>\<open>s.includes(p)\<close> below.\<close>

fun startsWith :: "string \<Rightarrow> string \<Rightarrow> bool" where
  "startsWith s [] = True"
| "startsWith [] (p # ps) = False"
| "startsWith (c # cs) (p # ps) = (c = p \<and> startsWith cs ps)"

text \<open>\<^verbatim>\<open>s.includes(sub)\<close>: \<open>sub\<close> occurs in \<open>s\<close> as a contiguous block.\<close>

fun strIncludes :: "string \<Rightarrow> string \<Rightarrow> bool" where
  "strIncludes [] sub = (sub = [])"
| "strIncludes (c # cs) sub = (startsWith (c # cs) sub \<or> strIncludes cs sub)"

text \<open>\<^verbatim>\<open>files.join(' ')\<close>.\<close>

fun joinSpace :: "string list \<Rightarrow> string" where
  "joinSpace [] = []"
| "joinSpace [x] = x"
| "joinSpace (x # y # ys) = x @ '' '' @ joinSpace (y # ys)"

text \<open>\<^verbatim>\<open>s.substring(0, n)\<close> for a non-negative \<open>n\<close>.\<close>

definition substring0 :: "nat \<Rightarrow> string \<Rightarrow> string" where
  "substring0 n s = take n s"

section \<open>The cache\<close>

definition CACHE_FILE :: string where
  "CACHE_FILE = ''.github-sync-cache.json''"

definition MAX_CACHE_SIZE :: nat where
  "MAX_CACHE_SIZE = 1000"

record SyncCache =
  processedSHAs :: "string list"
  lastSync :: string
  totalProcessed :: int

text \<open>\<^verbatim>\<open>xs.slice(-n)\<close> for \<open>n > 0\<close>: the last \<open>n\<close> elements, all of them when there are fewer.\<close>

definition sliceFromEnd :: "nat \<Rightarrow> 'a list \<Rightarrow> 'a list" where
  "sliceFromEnd n xs = drop (length xs - n) xs"

definition cleanupCache :: "SyncCache \<Rightarrow> SyncCache" where
  "cleanupCache cache =
     (if length (processedSHAs cache) > MAX_CACHE_SIZE
      then cache\<lparr>processedSHAs := sliceFromEnd MAX_CACHE_SIZE (processedSHAs cache)\<rparr>
      else cache)"

definition commitExistsInCache :: "string \<Rightarrow> SyncCache \<Rightarrow> bool" where
  "commitExistsInCache sha cache = (sha \<in> set (processedSHAs cache))"

section \<open>The classifiers\<close>

text \<open>
  Both functions have default parameters (\<^verbatim>\<open>files = []\<close>, \<^verbatim>\<open>additions = 0\<close>,
  \<^verbatim>\<open>deletions = 0\<close>); an argument that is \<^verbatim>\<open>undefined\<close> at the call is \<open>None\<close> here.
\<close>

definition detectFeatureArea :: "string \<Rightarrow> string list option \<Rightarrow> string" where
  "detectFeatureArea message files =
     (let lowerMessage = toLowerCase message;
          fileStr = toLowerCase (joinSpace (case files of None \<Rightarrow> [] | Some fs \<Rightarrow> fs))
      in
      if strIncludes lowerMessage ''chat'' \<or> strIncludes fileStr ''chat-interface''
         \<or> strIncludes fileStr ''chat.tsx'' then ''Chat Interface''
      else if strIncludes lowerMessage ''bigquery'' \<or> strIncludes lowerMessage ''analytics''
         \<or> strIncludes fileStr ''bigquery'' then ''BigQuery Integration''
      else if strIncludes lowerMessage ''claude'' \<or> strIncludes lowerMessage ''ai''
         \<or> strIncludes lowerMessage ''anthropic'' then ''AI/Claude API''
      else if strIncludes lowerMessage ''supabase'' \<or> strIncludes lowerMessage ''database''
         \<or> strIncludes lowerMessage ''auth'' then ''Database/Supabase''
      else if strIncludes lowerMessage ''ui'' \<or> strIncludes lowerMessage ''style''
         \<or> strIncludes lowerMessage ''css'' \<or> strIncludes fileStr ''.css'' then ''UI/UX''
      else if strIncludes lowerMessage ''test'' \<or> strIncludes fileStr ''test''
         \<or> strIncludes fileStr ''.spec.'' then ''Testing''
      else if strIncludes lowerMessage ''deploy'' \<or> strIncludes lowerMessage ''build''
         \<or> strIncludes fileStr ''vercel'' \<or> strIncludes fileStr ''dockerfile'' then ''Deployment''
      else if strIncludes lowerMessage ''fix'' \<or> strIncludes lowerMessage ''bug'' then ''Bug Fix''
      else ''Chat Interface'')"

definition detectImpactLevel :: "string \<Rightarrow> int option \<Rightarrow> int option \<Rightarrow> string" where
  "detectImpactLevel message additions deletions =
     (let lowerMessage = toLowerCase message;
          totalChanges = (case additions of None \<Rightarrow> 0 | Some a \<Rightarrow> a)
                       + (case deletions of None \<Rightarrow> 0 | Some d \<Rightarrow> d)
      in
      if strIncludes lowerMessage ''feat:'' \<or> strIncludes lowerMessage ''feature:''
         \<or> totalChanges > 200 then ''Major Feature''
      else if strIncludes lowerMessage ''fix:'' \<or> strIncludes lowerMessage ''bug'' then ''Bug Fix''
      else if strIncludes lowerMessage ''refactor:'' \<or> strIncludes lowerMessage ''cleanup''
        then ''Refactor''
      else if strIncludes lowerMessage ''docs:'' \<or> strIncludes lowerMessage ''readme''
        then ''Documentation''
      else if totalChanges > 50 then ''Minor Feature''
      else ''Minor Feature'')"


subsection \<open>The classification rules as an ordered table\<close>

text \<open>
  The specification describes both classifiers as an ordered list of (predicate, label)
  pairs evaluated in sequence with early exit on the first match. \<open>firstMatch\<close> is that
  evaluation; \<open>featureRules\<close> is the table for the feature area, each predicate taking the
  lower-cased message and the lower-cased, space-joined file paths; \<open>impactRules\<close> is the
  table for the impact level, each predicate taking the lower-cased message and the total
  of the changed lines.
\<close>

type_synonym 'a rule = "(string \<Rightarrow> 'a \<Rightarrow> bool) \<times> string"

fun firstMatch :: "'a rule list \<Rightarrow> string \<Rightarrow> 'a \<Rightarrow> string \<Rightarrow> string" where
  "firstMatch [] m f dflt = dflt"
| "firstMatch (r # rs) m f dflt = (if fst r m f then snd r else firstMatch rs m f dflt)"

definition featureRules :: "string rule list" where
  "featureRules =
    [(\<lambda>m f. strIncludes m ''chat'' \<or> strIncludes f ''chat-interface''
        \<or> strIncludes f ''chat.tsx'', ''Chat Interface''),
     (\<lambda>m f. strIncludes m ''bigquery'' \<or> strIncludes m ''analytics''
        \<or> strIncludes f ''bigquery'', ''BigQuery Integration''),
     (\<lambda>m f. strIncludes m ''claude'' \<or> strIncludes m ''ai''
        \<or> strIncludes m ''anthropic'', ''AI/Claude API''),
     (\<lambda>m f. strIncludes m ''supabase'' \<or> strIncludes m ''database''
        \<or> strIncludes m ''auth'', ''Database/Supabase''),
     (\<lambda>m f. strIncludes m ''ui'' \<or> strIncludes m ''style'' \<or> strIncludes m ''css''
        \<or> strIncludes f ''.css'', ''UI/UX''),
     (\<lambda>m f. strIncludes m ''test'' \<or> strIncludes f ''test''
        \<or> strIncludes f ''.spec.'', ''Testing''),
     (\<lambda>m f. strIncludes m ''deploy'' \<or> strIncludes m ''build'' \<or> strIncludes f ''vercel''
        \<or> strIncludes f ''dockerfile'', ''Deployment''),
     (\<lambda>m f. strIncludes m ''fix'' \<or> strIncludes m ''bug'', ''Bug Fix'')]"

definition impactRules :: "int rule list" where
  "impactRules =
    [(\<lambda>m n. strIncludes m ''feat:'' \<or> strIncludes m ''feature:'' \<or> n > 200, ''Major Feature''),
     (\<lambda>m n. strIncludes m ''fix:'' \<or> strIncludes m ''bug'', ''Bug Fix''),
     (\<lambda>m n. strIncludes m ''refactor:'' \<or> strIncludes m ''cleanup'', ''Refactor''),
     (\<lambda>m n. strIncludes m ''docs:'' \<or> strIncludes m ''readme'', ''Documentation''),
     (\<lambda>m n. n > 50, ''Minor Feature'')]"

section \<open>Loading the cache\<close>

text \<open>
  What \<^verbatim>\<open>fs\<close> finds at \<open>CACHE_FILE\<close>: no file, a file that cannot be read, or a file
  with contents.
\<close>

datatype FileState = Missing | Unreadable | Contents string

text \<open>
  The value \<^verbatim>\<open>JSON.parse\<close> returns, as far as \<open>loadCache\<close> looks at it: \<^verbatim>\<open>null\<close>
  (reading a property of it throws a TypeError), or any other value, of which the three
  properties \<^verbatim>\<open>processedSHAs\<close>, \<^verbatim>\<open>lastSync\<close> and \<^verbatim>\<open>totalProcessed\<close> are read
  (\<open>None\<close> when the property is \<^verbatim>\<open>undefined\<close>). The properties carry the types the
  interface \<^verbatim>\<open>SyncCache\<close> declares for them.
\<close>

datatype JsonData = JsonNull | JsonValue "string list option" "string option" "int option"

datatype Exn = ReadError | SyntaxError | TypeError

text \<open>\<^verbatim>\<open>x || d\<close> on a string: the empty string is falsy, as \<^verbatim>\<open>undefined\<close> is.\<close>

definition orString :: "string option \<Rightarrow> string \<Rightarrow> string" where
  "orString x d = (case x of None \<Rightarrow> d | Some v \<Rightarrow> if v = [] then d else v)"

text \<open>\<^verbatim>\<open>x || d\<close> on a number: zero is falsy.\<close>

definition orNumber :: "int option \<Rightarrow> int \<Rightarrow> int" where
  "orNumber x d = (case x of None \<Rightarrow> d | Some v \<Rightarrow> if v = 0 then d else v)"

text \<open>\<^verbatim>\<open>x || d\<close> on an array: every array is truthy.\<close>

definition orArray :: "'a list option \<Rightarrow> 'a list \<Rightarrow> 'a list" where
  "orArray x d = (case x of None \<Rightarrow> d | Some v \<Rightarrow> v)"

definition emptyCache :: "string \<Rightarrow> SyncCache" where
  "emptyCache now = \<lparr>processedSHAs = [], lastSync = now, totalProcessed = 0\<rparr>"

text \<open>
  The body of the \<^verbatim>\<open>try\<close> block of \<open>loadCache\<close>: \<open>Inl\<close> is an exception thrown in it,
  \<open>Inr None\<close> is falling out of the \<^verbatim>\<open>if\<close> without returning. \<open>parse\<close> is
  \<^verbatim>\<open>JSON.parse\<close> (\<open>None\<close>: it throws a SyntaxError), \<open>now\<close> is
  \<^verbatim>\<open>new Date().toISOString()\<close>.
\<close>

definition loadCacheTry ::
  "(string \<Rightarrow> JsonData option) \<Rightarrow> string \<Rightarrow> FileState \<Rightarrow> Exn + SyncCache option" where
  "loadCacheTry parse now file =
     (case file of
        Missing \<Rightarrow> Inr None
      | Unreadable \<Rightarrow> Inl ReadError
      | Contents text \<Rightarrow>
          (case parse text of
             None \<Rightarrow> Inl SyntaxError
           | Some JsonNull \<Rightarrow> Inl TypeError
           | Some (JsonValue shas lsync tot) \<Rightarrow>
               Inr (Some \<lparr>processedSHAs = orArray shas [],
                          lastSync = orString lsync now,
                          totalProcessed = orNumber tot 0\<rparr>)))"

definition loadCache ::
  "(string \<Rightarrow> JsonData option) \<Rightarrow> string \<Rightarrow> FileState \<Rightarrow> SyncCache" where
  "loadCache parse now file =
     (case loadCacheTry parse now file of
        Inr (Some c) \<Rightarrow> c
      | Inr None \<Rightarrow> emptyCache now
      | Inl e \<Rightarrow> emptyCache now)"

section \<open>parseInt\<close>

text \<open>
  \<^verbatim>\<open>parseInt(s)\<close> without a radix: leading white space is dropped, then an optional
  sign, then an optional \<^verbatim>\<open>0x\<close>/\<^verbatim>\<open>0X\<close> (which selects radix 16), then the longest
  run of digits is read and whatever follows it is ignored; with no digit the result is
  \<^verbatim>\<open>NaN\<close>, here \<open>None\<close>. The result here is the exact integer; JavaScript rounds
  it to a double, which changes it only beyond \<open>2 ^ 53\<close> and never moves it across 1
  or 365.

  The white space and line terminators of JavaScript among the code units up to U+00FF:
  tab, line feed, vertical tab, form feed, carriage return, space and the no-break
  space U+00A0.
\<close>

definition isWhiteSpace :: "char \<Rightarrow> bool" where
  "isWhiteSpace c =
     (c \<in> set [CHR 0x09, CHR 0x0A, CHR 0x0B, CHR 0x0C, CHR 0x0D, CHR 0x20, CHR 0xA0])"

definition digitValue :: "char \<Rightarrow> nat option" where
  "digitValue c =
     map_of (zip ''0123456789abcdefABCDEF''
       [0, 1, 2, 3, 4, 5, 6, 7, 8, 9, 10, 11, 12, 13, 14, 15, 10, 11, 12, 13, 14, 15]) c"

definition isRadixDigit :: "nat \<Rightarrow> char \<Rightarrow> bool" where
  "isRadixDigit radix c = (case digitValue c of None \<Rightarrow> False | Some v \<Rightarrow> v < radix)"

definition digitsValue :: "nat \<Rightarrow> string \<Rightarrow> nat" where
  "digitsValue radix z =
     foldl (\<lambda>acc c. acc * radix + (case digitValue c of None \<Rightarrow> 0 | Some v \<Rightarrow> v)) 0 z"

definition parseInt :: "string \<Rightarrow> int option" where
  "parseInt str =
     (let s = dropWhile isWhiteSpace str;
          sign = (case s of [] \<Rightarrow> 1 | c # rest \<Rightarrow> if c = CHR ''-'' then - 1 else (1::int));
          s1 = (case s of [] \<Rightarrow> []
                | c # rest \<Rightarrow> if c = CHR ''+'' \<or> c = CHR ''-'' then rest else s);
          radix = (if startsWith s1 ''0x'' \<or> startsWith s1 ''0X'' then 16 else (10::nat));
          s2 = (if startsWith s1 ''0x'' \<or> startsWith s1 ''0X'' then drop 2 s1 else s1);
          z = takeWhile (isRadixDigit radix) s2
      in if z = [] then None else Some (sign * int (digitsValue radix z)))"


section \<open>The two remote services\<close>

text \<open>
  A commit of the list the host returns (\<^verbatim>\<open>octokit.rest.repos.listCommits\<close>); the sync
  loop reads \<^verbatim>\<open>commit.sha\<close> only.
\<close>

record CommitSummary =
  commit_sha :: string
  summary_message :: string
  summary_date :: "string option"

text \<open>
  The answer of \<^verbatim>\<open>octokit.rest.repos.getCommit\<close>, with the optional parts the code
  guards by \<^verbatim>\<open>?.\<close> and \<^verbatim>\<open>||\<close>.
\<close>

record ApiAuthor =
  author_name :: "string option"
  author_date :: "string option"

record ApiStats =
  stats_additions :: "int option"
  stats_deletions :: "int option"
  stats_total :: "int option"

record ApiCommit =
  commit_message :: string
  commit_author :: "ApiAuthor option"
  html_url :: string
  commit_stats :: "ApiStats option"
  commit_files :: "string list option"

record CommitStats =
  additions :: int
  deletions :: int
  total :: int

record CommitData =
  sha :: string
  message :: string
  author :: string
  date :: string
  url :: string
  stats :: "CommitStats option"
  files :: "int option"

text \<open>The properties of the page \<open>createNotionCommit\<close> submits.\<close>

record NotionRow =
  prop_CommitMessage :: string
  prop_GitHubSHA :: string
  prop_GitHubURL :: string
  prop_Author :: string
  prop_CommitDate :: string
  prop_Repository :: string
  prop_FeatureArea :: string
  prop_ImpactLevel :: string
  prop_LinesAdded :: int
  prop_LinesDeleted :: int
  prop_FilesChanged :: int
  prop_Status :: string
  prop_Branch :: string

text \<open>
  What the program does to the world, in the order it does it: the calls to the host, to
  the destination database, to the timer and to the file system. The two callers of
  \<^verbatim>\<open>getCommit\<close> are told apart; the \<^verbatim>\<open>since\<close> of \<^verbatim>\<open>listCommits\<close> is kept as
  the number of days before now (\<open>None\<close>: no \<^verbatim>\<open>since\<close>).
\<close>

datatype Caller = Details | Files

datatype event =
    ListCommits "int option" nat
  | GetCommit Caller string
  | CreatePage NotionRow
  | Sleep nat
  | WriteFile string SyncCache
  | UnlinkFile string

text \<open>
  The world the program runs in. The remote answers may change from one call to the next,
  so each of them is indexed by the number of events that came before the call; \<open>None\<close>
  (\<open>False\<close> for \<open>pagesCreate\<close> and \<open>unlinkSync\<close>) is a call that throws.
  \<open>isoDay\<close> is \<^verbatim>\<open>new Date(s).toISOString().split('T')[0]\<close>, \<open>None\<close> when \<open>s\<close> is not a
  date and \<^verbatim>\<open>toISOString\<close> throws a RangeError.
\<close>

record Env =
  NOTION_TOKEN :: "string option"
  GITHUB_TOKEN :: "string option"
  cacheFile :: FileState
  jsonParse :: "string \<Rightarrow> JsonData option"
  nowISO :: "nat \<Rightarrow> string"
  isoDay :: "string \<Rightarrow> string option"
  listCommits :: "nat \<Rightarrow> int option \<Rightarrow> nat \<Rightarrow> CommitSummary list option"
  getCommit :: "nat \<Rightarrow> string \<Rightarrow> ApiCommit option"
  pagesCreate :: "nat \<Rightarrow> NotionRow \<Rightarrow> bool"
  unlinkSync :: "nat \<Rightarrow> bool"

section \<open>Fetching and writing one commit\<close>

definition getCommitDetails :: "Env \<Rightarrow> event list \<Rightarrow> string \<Rightarrow> CommitData option \<times> event list" where
  "getCommitDetails env tr ref =
     (case getCommit env (length tr) ref of
        None \<Rightarrow> (None, tr @ [GetCommit Details ref])
      | Some commit \<Rightarrow>
          (Some \<lparr>sha = substring0 7 ref,
                 message = commit_message commit,
                 author = orString (case commit_author commit of None \<Rightarrow> None
                                    | Some a \<Rightarrow> author_name a) ''Unknown'',
                 date = orString (case commit_author commit of None \<Rightarrow> None
                                  | Some a \<Rightarrow> author_date a) (nowISO env (Suc (length tr))),
                 url = html_url commit,
                 stats = Some \<lparr>additions = orNumber (case commit_stats commit of None \<Rightarrow> None
                                                      | Some st \<Rightarrow> stats_additions st) 0,
                               deletions = orNumber (case commit_stats commit of None \<Rightarrow> None
                                                      | Some st \<Rightarrow> stats_deletions st) 0,
                               total = orNumber (case commit_stats commit of None \<Rightarrow> None
                                                  | Some st \<Rightarrow> stats_total st) 0\<rparr>,
                 files = Some (orNumber (case commit_files commit of None \<Rightarrow> None
                                         | Some fs \<Rightarrow> Some (int (length fs))) 0)\<rparr>,
           tr @ [GetCommit Details ref]))"

definition getCommitFiles :: "Env \<Rightarrow> event list \<Rightarrow> string \<Rightarrow> string list \<times> event list" where
  "getCommitFiles env tr ref =
     (case getCommit env (length tr) ref of
        None \<Rightarrow> ([], tr @ [GetCommit Files ref])
      | Some commit \<Rightarrow> (orArray (commit_files commit) [], tr @ [GetCommit Files ref]))"

text \<open>The row \<open>createNotionCommit\<close> builds, given the file names and the day of the date.\<close>

definition notionRow :: "CommitData \<Rightarrow> string list \<Rightarrow> string \<Rightarrow> NotionRow" where
  "notionRow commitData fileNames day =
     \<lparr>prop_CommitMessage = message commitData,
      prop_GitHubSHA = sha commitData,
      prop_GitHubURL = url commitData,
      prop_Author = author commitData,
      prop_CommitDate = day,
      prop_Repository = ''CommunityGPT-MVP'',
      prop_FeatureArea = detectFeatureArea (message commitData) (Some fileNames),
      prop_ImpactLevel = detectImpactLevel (message commitData)
                           (map_option additions (stats commitData))
                           (map_option deletions (stats commitData)),
      prop_LinesAdded = orNumber (map_option additions (stats commitData)) 0,
      prop_LinesDeleted = orNumber (map_option deletions (stats commitData)) 0,
      prop_FilesChanged = orNumber (files commitData) 0,
      prop_Status = ''Committed'',
      prop_Branch = ''main''\<rparr>"

text \<open>
  \<open>createNotionCommit\<close>: the file names are fetched with the identifier of the record, the
  argument of \<^verbatim>\<open>notion.pages.create\<close> is built (an invalid date throws here, before the
  call), the page is created; every exception is caught and gives \<^verbatim>\<open>false\<close>.
\<close>

definition createNotionCommit :: "Env \<Rightarrow> event list \<Rightarrow> CommitData \<Rightarrow> bool \<times> event list" where
  "createNotionCommit env tr commitData =
     (case getCommitFiles env tr (sha commitData) of
        (fileNames, tr1) \<Rightarrow>
          (case isoDay env (date commitData) of
             None \<Rightarrow> (False, tr1)
           | Some day \<Rightarrow>
               (pagesCreate env (length tr1) (notionRow commitData fileNames day),
                tr1 @ [CreatePage (notionRow commitData fileNames day)])))"

text \<open>
  \<open>saveCache\<close> writes the three fields to \<open>CACHE_FILE\<close>; a write that throws is caught
  and logged, so the function returns either way.
\<close>

definition saveCache :: "event list \<Rightarrow> SyncCache \<Rightarrow> event list" where
  "saveCache tr c = tr @ [WriteFile CACHE_FILE c]"

section \<open>The sync loop\<close>

text \<open>The variables the loop of \<open>syncRecentCommits\<close> updates, and the events so far.\<close>

record LoopState =
  cache :: SyncCache
  processedCount :: nat
  skippedCount :: nat
  trace :: "event list"

text \<open>One iteration of \<^verbatim>\<open>for (const commit of commits)\<close>.\<close>

definition processCommit :: "Env \<Rightarrow> LoopState \<Rightarrow> CommitSummary \<Rightarrow> LoopState" where
  "processCommit env st commit =
     (if commitExistsInCache (commit_sha commit) (cache st)
      then st\<lparr>skippedCount := skippedCount st + 1\<rparr>
      else
        (case getCommitDetails env (trace st) (commit_sha commit) of
           (None, tr1) \<Rightarrow> st\<lparr>trace := tr1\<rparr>
         | (Some commitData, tr1) \<Rightarrow>
             (case createNotionCommit env tr1 commitData of
                (success, tr2) \<Rightarrow>
                  (if success
                   then st\<lparr>processedCount := processedCount st + 1,
                           cache := (cache st)\<lparr>
                             processedSHAs := processedSHAs (cache st) @ [commit_sha commit],
                             totalProcessed := totalProcessed (cache st) + 1\<rparr>,
                           trace := tr2 @ [Sleep 1000]\<rparr>
                   else st\<lparr>trace := tr2 @ [Sleep 1000]\<rparr>))))"

fun syncLoop :: "Env \<Rightarrow> LoopState \<Rightarrow> CommitSummary list \<Rightarrow> LoopState" where
  "syncLoop env st [] = st"
| "syncLoop env st (commit # commits) = syncLoop env (processCommit env st commit) commits"

section \<open>syncRecentCommits\<close>

text \<open>
  How a run ends: the loop ran and the final counts were logged; neither window had a
  commit and the function returned early; or an exception reached the \<^verbatim>\<open>catch\<close> of
  \<open>syncRecentCommits\<close> and was logged as an error.
\<close>

datatype SyncOutcome = Completed nat nat | NoCommitsFound | SyncError

record SyncRun =
  outcome :: SyncOutcome
  finalCache :: SyncCache
  calls :: "event list"

text \<open>The part of \<open>syncRecentCommits\<close> after the list of commits is settled.\<close>

definition processCommits :: "Env \<Rightarrow> SyncCache \<Rightarrow> event list \<Rightarrow> CommitSummary list \<Rightarrow> SyncRun" where
  "processCommits env cache0 tr commits =
     (let st = syncLoop env
                 \<lparr>cache = cache0, processedCount = 0, skippedCount = 0, trace = tr\<rparr> commits;
          cache1 = cleanupCache (cache st);
          cache2 = cache1\<lparr>lastSync := nowISO env (length (trace st))\<rparr>
      in \<lparr>outcome = Completed (processedCount st) (skippedCount st),
          finalCache = cache2,
          calls = saveCache (trace st) cache2\<rparr>)"

definition syncRecentCommits :: "Env \<Rightarrow> int \<Rightarrow> SyncRun" where
  "syncRecentCommits env days =
     (let cache0 = loadCache (jsonParse env) (nowISO env 0) (cacheFile env);
          tr1 = [ListCommits None 10];
          tr2 = tr1 @ [ListCommits (Some days) 50];
          tr3 = tr2 @ [ListCommits (Some 30) 50]
      in
      case listCommits env 0 None 10 of
        None \<Rightarrow> \<lparr>outcome = SyncError, finalCache = cache0, calls = tr1\<rparr>
      | Some allCommits \<Rightarrow>
          (case listCommits env (length tr1) (Some days) 50 of
             None \<Rightarrow> \<lparr>outcome = SyncError, finalCache = cache0, calls = tr2\<rparr>
           | Some commits \<Rightarrow>
               if length commits = 0
               then
                 (case listCommits env (length tr2) (Some 30) 50 of
                    None \<Rightarrow> \<lparr>outcome = SyncError, finalCache = cache0, calls = tr3\<rparr>
                  | Some longerCommits \<Rightarrow>
                      if length longerCommits > 0
                      then processCommits env cache0 tr3 longerCommits
                      else \<lparr>outcome = NoCommitsFound, finalCache = cache0, calls = tr3\<rparr>)
               else processCommits env cache0 tr2 commits))"

section \<open>The command line\<close>

text \<open>
  How \<open>main\<close> ends: \<^verbatim>\<open>process.exit(n)\<close>, or the sync ran and \<open>main\<close> returned.
\<close>

datatype MainResult = Exit nat "event list" | Synced int SyncRun

text \<open>\<^verbatim>\<open>!TOKEN\<close>: the variable is unset or empty.\<close>

definition falsy :: "string option \<Rightarrow> bool" where
  "falsy x = (case x of None \<Rightarrow> True | Some v \<Rightarrow> v = [])"

text \<open>\<^verbatim>\<open>args[0] ? parseInt(args[0]) : 7\<close>; \<open>None\<close> is \<^verbatim>\<open>NaN\<close>.\<close>

definition daysOfArgs :: "string list \<Rightarrow> int option" where
  "daysOfArgs args =
     (case args of
        [] \<Rightarrow> Some 7
      | a # rest \<Rightarrow> if a = [] then Some 7 else parseInt a)"

definition main :: "Env \<Rightarrow> string list \<Rightarrow> MainResult" where
  "main env args =
     (if ''--clear-cache'' \<in> set args
      then
        (if cacheFile env \<noteq> Missing
         then (if unlinkSync env 0 then Exit 0 [UnlinkFile CACHE_FILE]
               else Exit 1 [UnlinkFile CACHE_FILE])
         else Exit 0 [])
      else
        (case daysOfArgs args of
           None \<Rightarrow> Exit 1 []
         | Some days \<Rightarrow>
             if days < 1 \<or> days > 365 then Exit 1 []
             else if falsy (NOTION_TOKEN env) \<or> falsy (GITHUB_TOKEN env) then Exit 1 []
             else Synced days (syncRecentCommits env days)))"


section \<open>Reading a trace\<close>

datatype Kind = KList | KDetails | KFiles | KCreate | KSleep | KWrite | KUnlink

fun kindOf :: "event \<Rightarrow> Kind" where
  "kindOf (ListCommits since perPage) = KList"
| "kindOf (GetCommit Details ref) = KDetails"
| "kindOf (GetCommit Files ref) = KFiles"
| "kindOf (CreatePage row) = KCreate"
| "kindOf (Sleep ms) = KSleep"
| "kindOf (WriteFile path c) = KWrite"
| "kindOf (UnlinkFile path) = KUnlink"

text \<open>How many events of a kind a trace has.\<close>

definition countKind :: "Kind \<Rightarrow> event list \<Rightarrow> nat" where
  "countKind k tr = length (filter (\<lambda>e. kindOf e = k) tr)"

section \<open>Concrete worlds\<close>

text \<open>
  A world where everything answers: both tokens are set, there is no cache file, the host
  has no commits in any window, every commit can be fetched, every page is created. The
  only date the date parser accepts is the one of \<open>demoCommit\<close>.
\<close>

definition demoCommit :: ApiCommit where
  "demoCommit =
     \<lparr>commit_message = ''Update docs'',
      commit_author = Some \<lparr>author_name = Some ''Ann'',
                            author_date = Some ''2025-09-05T18:20:43Z''\<rparr>,
      html_url = ''https://example.org/c'',
      commit_stats = Some \<lparr>stats_additions = Some 3, stats_deletions = Some 1,
                           stats_total = Some 4\<rparr>,
      commit_files = Some [''README.md'']\<rparr>"

definition demoEnv :: Env where
  "demoEnv =
     \<lparr>NOTION_TOKEN = Some ''n'',
      GITHUB_TOKEN = Some ''g'',
      cacheFile = Missing,
      jsonParse = (\<lambda>text. None),
      nowISO = (\<lambda>t. ''2025-09-06T00:00:00.000Z''),
      isoDay = (\<lambda>d. if d = ''2025-09-05T18:20:43Z'' then Some ''2025-09-05'' else None),
      listCommits = (\<lambda>t since perPage. Some []),
      getCommit = (\<lambda>t ref. Some demoCommit),
      pagesCreate = (\<lambda>t row. True),
      unlinkSync = (\<lambda>t. True)\<rparr>"

definition summaryOf :: "string \<Rightarrow> CommitSummary" where
  "summaryOf ref = \<lparr>commit_sha = ref, summary_message = ''Update docs'', summary_date = None\<rparr>"

definition shaA :: string where
  "shaA = ''a1b2c3d4e5f60718293a4b5c6d7e8f9001122334''"

definition shaB :: string where
  "shaB = ''b1b2c3d4e5f60718293a4b5c6d7e8f9001122334''"

definition shaC :: string where
  "shaC = ''c1b2c3d4e5f60718293a4b5c6d7e8f9001122334''"

text \<open>The primary window is empty, the 30-day window has three commits.\<close>

definition fallbackEnv :: Env where
  "fallbackEnv =
     demoEnv\<lparr>listCommits := (\<lambda>t since perPage.
        if since = Some 30 then Some [summaryOf shaA, summaryOf shaB, summaryOf shaC]
        else Some [])\<rparr>"

text \<open>The host refuses every \<^verbatim>\<open>getCommit\<close>; the database refuses every page.\<close>

definition noDetailsEnv :: Env where
  "noDetailsEnv = demoEnv\<lparr>getCommit := (\<lambda>t ref. None)\<rparr>"

definition noPagesEnv :: Env where
  "noPagesEnv = demoEnv\<lparr>pagesCreate := (\<lambda>t row. False)\<rparr>"

definition demoState :: LoopState where
  "demoState =
     \<lparr>cache = \<lparr>processedSHAs = [shaA], lastSync = ''2025-09-01T00:00:00.000Z'',
               totalProcessed = 1\<rparr>,
      processedCount = 0, skippedCount = 0, trace = []\<rparr>"

section \<open>Facts about the string functions\<close>

lemma startsWith_iff: "startsWith s p \<longleftrightarrow> (\<exists>post. s = p @ post)"
  by (induction s p rule: startsWith.induct) auto

lemma strIncludes_iff: "strIncludes s sub \<longleftrightarrow> (\<exists>pre post. s = pre @ sub @ post)"
proof (induction s)
  case Nil
  then show ?case by auto
next
  case (Cons c cs)
  show ?case
  proof
    assume "strIncludes (c # cs) sub"
    then consider "startsWith (c # cs) sub" | "strIncludes cs sub" by auto
    then show "\<exists>pre post. c # cs = pre @ sub @ post"
    proof cases
      case 1
      then obtain post where "c # cs = sub @ post" by (auto simp: startsWith_iff)
      then have "c # cs = [] @ sub @ post" by simp
      then show ?thesis by blast
    next
      case 2
      then obtain pre post where "cs = pre @ sub @ post" using Cons.IH by auto
      then have "c # cs = (c # pre) @ sub @ post" by simp
      then show ?thesis by blast
    qed
  next
    assume "\<exists>pre post. c # cs = pre @ sub @ post"
    then obtain pre post where eq: "c # cs = pre @ sub @ post" by blast
    show "strIncludes (c # cs) sub"
    proof (cases pre)
      case Nil
      with eq have "startsWith (c # cs) sub" by (auto simp: startsWith_iff)
      then show ?thesis by simp
    next
      case (Cons p pre')
      with eq have "cs = pre' @ sub @ post" by simp
      then have "strIncludes cs sub" using Cons.IH by blast
      then show ?thesis by simp
    qed
  qed
qed

lemma toLowerCase_examples:
  "toLowerCase ''Fix CHAT'' = ''fix chat''
   \<and> toLowerCase [CHR 0xC9, CHR ''t'', CHR 0xD7, CHR 0xDE, CHR 0xDF]
       = [CHR 0xE9, CHR ''t'', CHR 0xD7, CHR 0xFE, CHR 0xDF]"
  by code_simp

section \<open>Facts about first-match evaluation\<close>

lemma firstMatch_index:
  "i < length rs \<Longrightarrow> fst (rs ! i) m f \<Longrightarrow> (\<forall>j<i. \<not> fst (rs ! j) m f) \<Longrightarrow>
   firstMatch rs m f dflt = snd (rs ! i)"
proof (induction rs arbitrary: i)
  case Nil
  then show ?case by simp
next
  case (Cons r rs)
  show ?case
  proof (cases i)
    case 0
    with Cons.prems show ?thesis by simp
  next
    case (Suc k)
    from Cons.prems(3) Suc have nr: "\<not> fst r m f" by auto
    from Cons.prems Suc have "k < length rs" "fst (rs ! k) m f" by auto
    moreover from Cons.prems(3) Suc have "\<forall>j<k. \<not> fst (rs ! j) m f" by auto
    ultimately have "firstMatch rs m f dflt = snd (rs ! k)" by (rule Cons.IH)
    with nr Suc show ?thesis by simp
  qed
qed

lemma firstMatch_default:
  "(\<forall>r \<in> set rs. \<not> fst r m f) \<Longrightarrow> firstMatch rs m f dflt = dflt"
  by (induction rs) auto

lemma detectFeatureArea_table:
  "detectFeatureArea msg fs =
     firstMatch featureRules (toLowerCase msg)
       (toLowerCase (joinSpace (case fs of None \<Rightarrow> [] | Some x \<Rightarrow> x))) ''Chat Interface''"
  by (simp add: detectFeatureArea_def featureRules_def Let_def)

lemma detectImpactLevel_table:
  "detectImpactLevel msg a d =
     firstMatch impactRules (toLowerCase msg)
       ((case a of None \<Rightarrow> 0 | Some x \<Rightarrow> x) + (case d of None \<Rightarrow> 0 | Some x \<Rightarrow> x))
       ''Minor Feature''"
  by (simp add: detectImpactLevel_def impactRules_def Let_def)

section \<open>Facts about one iteration\<close>

lemma getCommitDetails_trace:
  "snd (getCommitDetails env tr ref) = tr @ [GetCommit Details ref]"
  by (simp add: getCommitDetails_def split: option.splits)

lemma getCommitDetails_None:
  "fst (getCommitDetails env tr ref) = None \<longleftrightarrow> getCommit env (length tr) ref = None"
  by (simp add: getCommitDetails_def split: option.splits)

lemma getCommitDetails_sha:
  "fst (getCommitDetails env tr ref) = Some cd \<Longrightarrow> sha cd = take 7 ref"
  by (auto simp: getCommitDetails_def substring0_def split: option.splits)

lemma getCommitFiles_trace:
  "snd (getCommitFiles env tr ref) = tr @ [GetCommit Files ref]"
  by (simp add: getCommitFiles_def split: option.splits)

lemma createNotionCommit_trace:
  "snd (createNotionCommit env tr cd) =
     tr @ GetCommit Files (sha cd) #
       (case isoDay env (date cd) of
          None \<Rightarrow> []
        | Some day \<Rightarrow> [CreatePage (notionRow cd (fst (getCommitFiles env tr (sha cd))) day)])"
  using getCommitFiles_trace [of env tr "sha cd"]
  by (auto simp: createNotionCommit_def split: prod.splits option.splits)

lemma createNotionCommit_kinds_ok:
  "fst (createNotionCommit env tr cd) \<Longrightarrow>
   map kindOf (snd (createNotionCommit env tr cd)) = map kindOf tr @ [KFiles, KCreate]"
  using getCommitFiles_trace [of env tr "sha cd"]
  by (auto simp: createNotionCommit_def split: prod.splits option.splits)

lemma processCommit_cached:
  "commitExistsInCache (commit_sha c) (cache st) \<Longrightarrow>
   processCommit env st c = st\<lparr>skippedCount := skippedCount st + 1\<rparr>"
  by (simp add: processCommit_def)

lemma processCommit_no_details:
  "\<not> commitExistsInCache (commit_sha c) (cache st) \<Longrightarrow>
   getCommit env (length (trace st)) (commit_sha c) = None \<Longrightarrow>
   processCommit env st c = st\<lparr>trace := trace st @ [GetCommit Details (commit_sha c)]\<rparr>"
  by (simp add: processCommit_def getCommitDetails_def)

lemma processCommit_details:
  assumes "\<not> commitExistsInCache (commit_sha c) (cache st)"
    and "fst (getCommitDetails env (trace st) (commit_sha c)) = Some cd"
  shows "processCommit env st c =
    (if fst (createNotionCommit env (trace st @ [GetCommit Details (commit_sha c)]) cd)
     then st\<lparr>processedCount := processedCount st + 1,
             cache := (cache st)\<lparr>
               processedSHAs := processedSHAs (cache st) @ [commit_sha c],
               totalProcessed := totalProcessed (cache st) + 1\<rparr>,
             trace := snd (createNotionCommit env
                             (trace st @ [GetCommit Details (commit_sha c)]) cd) @ [Sleep 1000]\<rparr>
     else st\<lparr>trace := snd (createNotionCommit env
                             (trace st @ [GetCommit Details (commit_sha c)]) cd) @ [Sleep 1000]\<rparr>)"
proof -
  have "getCommitDetails env (trace st) (commit_sha c)
          = (Some cd, trace st @ [GetCommit Details (commit_sha c)])"
    using assms(2) getCommitDetails_trace [of env "trace st" "commit_sha c"]
    by (metis prod.collapse)
  with assms(1) show ?thesis
    by (simp add: processCommit_def split: prod.splits)
qed


lemma processCommit_new_events:
  "\<exists>new. trace (processCommit env st c) = trace st @ new
     \<and> (\<forall>r. GetCommit Details r \<in> set new
            \<longrightarrow> r = commit_sha c \<and> \<not> commitExistsInCache r (cache st))"
proof (cases "commitExistsInCache (commit_sha c) (cache st)")
  case True
  then show ?thesis by (simp add: processCommit_cached)
next
  case False
  show ?thesis
  proof (cases "fst (getCommitDetails env (trace st) (commit_sha c))")
    case None
    then have "getCommit env (length (trace st)) (commit_sha c) = None"
      by (simp add: getCommitDetails_None)
    with False show ?thesis by (simp add: processCommit_no_details)
  next
    case (Some cd)
    have "trace (processCommit env st c) =
            snd (createNotionCommit env (trace st @ [GetCommit Details (commit_sha c)]) cd)
              @ [Sleep 1000]"
      using processCommit_details [OF False Some] by simp
    then have "trace (processCommit env st c) =
        trace st @ ([GetCommit Details (commit_sha c), GetCommit Files (sha cd)]
          @ (case isoDay env (date cd) of
               None \<Rightarrow> []
             | Some day \<Rightarrow>
                [CreatePage (notionRow cd
                   (fst (getCommitFiles env (trace st @ [GetCommit Details (commit_sha c)])
                          (sha cd))) day)])
          @ [Sleep 1000])"
      by (simp add: createNotionCommit_trace)
    moreover have "\<forall>r. GetCommit Details r \<in> set ([GetCommit Details (commit_sha c), GetCommit Files (sha cd)]
          @ (case isoDay env (date cd) of
               None \<Rightarrow> []
             | Some day \<Rightarrow>
                [CreatePage (notionRow cd
                   (fst (getCommitFiles env (trace st @ [GetCommit Details (commit_sha c)])
                          (sha cd))) day)])
          @ [Sleep 1000])
       \<longrightarrow> r = commit_sha c \<and> \<not> commitExistsInCache r (cache st)"
      using False by (auto split: option.splits)
    ultimately show ?thesis by blast
  qed
qed

lemma processCommit_cache_grows:
  "set (processedSHAs (cache st)) \<subseteq> set (processedSHAs (cache (processCommit env st c)))"
  by (auto simp: processCommit_def split: prod.splits option.splits)

section \<open>Facts about the loop\<close>

lemma syncLoop_new_events:
  "\<exists>new. trace (syncLoop env st cs) = trace st @ new
     \<and> (\<forall>r. GetCommit Details r \<in> set new \<longrightarrow> r \<notin> set (processedSHAs (cache st)))"
proof (induction cs arbitrary: st)
  case Nil
  then show ?case by simp
next
  case (Cons c cs)
  obtain new1 where n1: "trace (processCommit env st c) = trace st @ new1"
    and d1: "\<forall>r. GetCommit Details r \<in> set new1
               \<longrightarrow> r = commit_sha c \<and> \<not> commitExistsInCache r (cache st)"
    using processCommit_new_events [of env st c] by blast
  obtain new2 where n2: "trace (syncLoop env (processCommit env st c) cs)
                           = trace (processCommit env st c) @ new2"
    and d2: "\<forall>r. GetCommit Details r \<in> set new2
               \<longrightarrow> r \<notin> set (processedSHAs (cache (processCommit env st c)))"
    using Cons.IH [of "processCommit env st c"] by blast
  have "trace (syncLoop env st (c # cs)) = trace st @ (new1 @ new2)"
    using n1 n2 by simp
  moreover have "\<forall>r. GetCommit Details r \<in> set (new1 @ new2)
                   \<longrightarrow> r \<notin> set (processedSHAs (cache st))"
    using d1 d2 processCommit_cache_grows [of st env c]
    by (auto simp: commitExistsInCache_def)
  ultimately show ?case by blast
qed

lemma syncLoop_trace_prefix:
  "take (length (trace st)) (trace (syncLoop env st cs)) = trace st"
  using syncLoop_new_events [of env st cs] by auto

lemma syncLoop_all_fresh:
  assumes "distinct (map commit_sha cs)"
    and "set (map commit_sha cs) \<inter> set (processedSHAs (cache st)) = {}"
    and "\<And>t c. c \<in> set cs \<Longrightarrow> getCommit env t (commit_sha c) \<noteq> None"
    and "\<forall>tr c cd. c \<in> set cs \<longrightarrow>
           fst (getCommitDetails env tr (commit_sha c)) = Some cd \<longrightarrow>
           fst (createNotionCommit env (tr @ [GetCommit Details (commit_sha c)]) cd)"
  shows "processedCount (syncLoop env st cs) = processedCount st + length cs
    \<and> skippedCount (syncLoop env st cs) = skippedCount st
    \<and> processedSHAs (cache (syncLoop env st cs)) = processedSHAs (cache st) @ map commit_sha cs
    \<and> totalProcessed (cache (syncLoop env st cs)) = totalProcessed (cache st) + int (length cs)
    \<and> lastSync (cache (syncLoop env st cs)) = lastSync (cache st)
    \<and> map kindOf (trace (syncLoop env st cs))
        = map kindOf (trace st) @ concat (replicate (length cs) [KDetails, KFiles, KCreate, KSleep])"
  using assms
proof (induction cs arbitrary: st)
  case Nil
  then show ?case by simp
next
  case (Cons c cs)
  let ?tr = "trace st @ [GetCommit Details (commit_sha c)]"
  from Cons.prems(2) have fresh: "\<not> commitExistsInCache (commit_sha c) (cache st)"
    by (auto simp: commitExistsInCache_def)
  from Cons.prems(3) [of c "length (trace st)"]
  obtain cd where cd: "fst (getCommitDetails env (trace st) (commit_sha c)) = Some cd"
    by (cases "fst (getCommitDetails env (trace st) (commit_sha c))")
       (auto simp: getCommitDetails_None)
  let ?st1 = "processCommit env st c"
  have ok: "fst (createNotionCommit env ?tr cd)"
    using Cons.prems(4) cd by auto
  have step: "?st1 = st\<lparr>processedCount := processedCount st + 1,
             cache := (cache st)\<lparr>
               processedSHAs := processedSHAs (cache st) @ [commit_sha c],
               totalProcessed := totalProcessed (cache st) + 1\<rparr>,
             trace := snd (createNotionCommit env ?tr cd) @ [Sleep 1000]\<rparr>"
    using processCommit_details [OF fresh cd] ok by simp
  have kinds1: "map kindOf (trace ?st1) = map kindOf (trace st) @ [KDetails, KFiles, KCreate, KSleep]"
    using step createNotionCommit_kinds_ok [OF ok] by simp
  have p1: "distinct (map commit_sha cs)" using Cons.prems(1) by simp
  have p2: "set (map commit_sha cs) \<inter> set (processedSHAs (cache ?st1)) = {}"
    using Cons.prems(1,2) step by auto
  have p3: "\<And>t c'. c' \<in> set cs \<Longrightarrow> getCommit env t (commit_sha c') \<noteq> None"
    using Cons.prems(3) by simp
  have p4: "\<forall>tr c' cd'. c' \<in> set cs \<longrightarrow>
           fst (getCommitDetails env tr (commit_sha c')) = Some cd' \<longrightarrow>
           fst (createNotionCommit env (tr @ [GetCommit Details (commit_sha c')]) cd')"
    using Cons.prems(4) by auto
  note ih = Cons.IH [OF p1 p2 p3 p4]
  have c1: "processedCount ?st1 = processedCount st + 1" using step by simp
  have c2: "skippedCount ?st1 = skippedCount st" using step by simp
  have c3: "processedSHAs (cache ?st1) = processedSHAs (cache st) @ [commit_sha c]"
    using step by simp
  have c4: "totalProcessed (cache ?st1) = totalProcessed (cache st) + 1" using step by simp
  have c5: "lastSync (cache ?st1) = lastSync (cache st)" using step by simp
  from ih c1 c2 c3 c4 c5 kinds1 show ?case by simp
qed

lemma processCommits_calls_prefix:
  "take (length tr) (calls (processCommits env cache0 tr cs)) = tr"
  using syncLoop_trace_prefix
    [of "\<lparr>cache = cache0, processedCount = 0, skippedCount = 0, trace = tr\<rparr>" env cs]
    syncLoop_new_events
    [of env "\<lparr>cache = cache0, processedCount = 0, skippedCount = 0, trace = tr\<rparr>" cs]
  by (auto simp: processCommits_def saveCache_def Let_def)

section \<open>Facts about parseInt\<close>









section \<open>The claims\<close>

text \<open>
  Claim C1. When the loop reaches a commit whose identifier is in \<open>processedSHAs\<close> of the
  cache, the iteration adds no event at all (no detail fetch, no row write, no delay),
  leaves the cache and the processed counter alone, adds exactly one to the skip counter,
  and the loop goes on with the next commit from that state; nowhere in the rest of the
  loop is a detail fetch made for that identifier.
\<close>
theorem cached_commit_is_skipped:
  assumes "commitExistsInCache (commit_sha c) (cache st)"
  shows "processCommit env st c = st\<lparr>skippedCount := skippedCount st + 1\<rparr>
    \<and> trace (processCommit env st c) = trace st
    \<and> cache (processCommit env st c) = cache st
    \<and> processedCount (processCommit env st c) = processedCount st
    \<and> skippedCount (processCommit env st c) = skippedCount st + 1
    \<and> syncLoop env st (c # cs) = syncLoop env (st\<lparr>skippedCount := skippedCount st + 1\<rparr>) cs
    \<and> GetCommit Details (commit_sha c)
         \<notin> set (drop (length (trace st)) (trace (syncLoop env st (c # cs))))"
proof -
  have step: "processCommit env st c = st\<lparr>skippedCount := skippedCount st + 1\<rparr>"
    using assms by (rule processCommit_cached)
  obtain new where n: "trace (syncLoop env st (c # cs)) = trace st @ new"
    and d: "\<forall>r. GetCommit Details r \<in> set new \<longrightarrow> r \<notin> set (processedSHAs (cache st))"
    using syncLoop_new_events [of env st "c # cs"] by blast
  have "GetCommit Details (commit_sha c) \<notin> set new"
    using d assms by (auto simp: commitExistsInCache_def)
  then have "GetCommit Details (commit_sha c)
         \<notin> set (drop (length (trace st)) (trace (syncLoop env st (c # cs))))"
    using n by simp
  with step show ?thesis by simp
qed

theorem cached_commit_is_skipped_witness:
  "commitExistsInCache (commit_sha (summaryOf shaA)) (cache demoState)
   \<and> processCommit demoEnv demoState (summaryOf shaA) = demoState\<lparr>skippedCount := 1\<rparr>
   \<and> trace (processCommit demoEnv demoState (summaryOf shaA)) = []"
proof -
  have h: "commitExistsInCache (commit_sha (summaryOf shaA)) (cache demoState)"
    by (simp add: commitExistsInCache_def summaryOf_def demoState_def)
  from cached_commit_is_skipped [OF h, of demoEnv "[]"] h
  show ?thesis by (simp add: demoState_def)
qed

text \<open>
  Claim C2 says that a run whose fallback window has three new commits, all fetched and
  written, has exactly two delays. In this world it has three: one after each write, the
  last one included.
\<close>
theorem fallback_three_commits_counterexample:
  "listCommits fallbackEnv 0 None 10 = Some []
   \<and> listCommits fallbackEnv 1 (Some 7) 50 = Some []
   \<and> listCommits fallbackEnv 2 (Some 30) 50 = Some [summaryOf shaA, summaryOf shaB, summaryOf shaC]
   \<and> processedSHAs (loadCache (jsonParse fallbackEnv) (nowISO fallbackEnv 0)
        (cacheFile fallbackEnv)) = []
   \<and> outcome (syncRecentCommits fallbackEnv 7) = Completed 3 0
   \<and> map kindOf (calls (syncRecentCommits fallbackEnv 7))
       = [KList, KList, KList, KDetails, KFiles, KCreate, KSleep,
          KDetails, KFiles, KCreate, KSleep, KDetails, KFiles, KCreate, KSleep, KWrite]
   \<and> countKind KSleep (calls (syncRecentCommits fallbackEnv 7)) = 3
   \<and> countKind KSleep (calls (syncRecentCommits fallbackEnv 7)) \<noteq> 2"
proof -
  have h: "listCommits fallbackEnv 0 None 10 = Some []
   \<and> listCommits fallbackEnv 1 (Some 7) 50 = Some []
   \<and> listCommits fallbackEnv 2 (Some 30) 50 = Some [summaryOf shaA, summaryOf shaB, summaryOf shaC]
   \<and> processedSHAs (loadCache (jsonParse fallbackEnv) (nowISO fallbackEnv 0)
        (cacheFile fallbackEnv)) = []"
    by (simp add: fallbackEnv_def demoEnv_def loadCache_def loadCacheTry_def emptyCache_def)
  have o: "outcome (syncRecentCommits fallbackEnv 7) = Completed 3 0"
    by code_simp
  have k: "map kindOf (calls (syncRecentCommits fallbackEnv 7))
       = [KList, KList, KList, KDetails, KFiles, KCreate, KSleep,
          KDetails, KFiles, KCreate, KSleep, KDetails, KFiles, KCreate, KSleep, KWrite]"
    by code_simp
  have "countKind KSleep (calls (syncRecentCommits fallbackEnv 7))
          = length (filter (\<lambda>x. x = KSleep) (map kindOf (calls (syncRecentCommits fallbackEnv 7))))"
    by (simp add: countKind_def filter_map comp_def)
  then have c: "countKind KSleep (calls (syncRecentCommits fallbackEnv 7)) = 3"
    unfolding k by simp
  from h o k c show ?thesis by simp
qed

text \<open>
  Claim C2, amended. In a run where the primary window returns no commit and the 30-day
  window returns three commits with distinct identifiers, none of them cached, whose
  detail fetches and row writes all succeed: there are exactly 3 detail fetches and 3 page
  creations, the processed counter ends at 3 and the skip counter at 0, and there are
  exactly 3 delays, one after each write (none before the first fetch, one after the last
  write, before the cache is saved). The three identifiers are appended to
  \<open>processedSHAs\<close> in order, and the result is trimmed to its last \<open>MAX_CACHE_SIZE\<close>
  entries: the cache grows by exactly 3 when it held at most 997 identifiers.
\<close>
theorem fallback_three_commits:
  assumes "listCommits env 0 None 10 = Some allCommits"
    and "listCommits env 1 (Some days) 50 = Some []"
    and "listCommits env 2 (Some 30) 50 = Some [c1, c2, c3]"
    and "cache0 = loadCache (jsonParse env) (nowISO env 0) (cacheFile env)"
    and "distinct [commit_sha c1, commit_sha c2, commit_sha c3]"
    and "set [commit_sha c1, commit_sha c2, commit_sha c3] \<inter> set (processedSHAs cache0) = {}"
    and "\<And>t c. c \<in> set [c1, c2, c3] \<Longrightarrow> getCommit env t (commit_sha c) \<noteq> None"
    and "\<forall>tr c cd. c \<in> set [c1, c2, c3] \<longrightarrow>
           fst (getCommitDetails env tr (commit_sha c)) = Some cd \<longrightarrow>
           fst (createNotionCommit env (tr @ [GetCommit Details (commit_sha c)]) cd)"
  shows "map kindOf (calls (syncRecentCommits env days))
       = [KList, KList, KList, KDetails, KFiles, KCreate, KSleep,
          KDetails, KFiles, KCreate, KSleep, KDetails, KFiles, KCreate, KSleep, KWrite]
    \<and> countKind KDetails (calls (syncRecentCommits env days)) = 3
    \<and> countKind KCreate (calls (syncRecentCommits env days)) = 3
    \<and> countKind KSleep (calls (syncRecentCommits env days)) = 3
    \<and> outcome (syncRecentCommits env days) = Completed 3 0
    \<and> processedSHAs (finalCache (syncRecentCommits env days))
        = sliceFromEnd MAX_CACHE_SIZE
            (processedSHAs cache0 @ [commit_sha c1, commit_sha c2, commit_sha c3])
    \<and> (length (processedSHAs cache0) + 3 \<le> MAX_CACHE_SIZE \<longrightarrow>
          processedSHAs (finalCache (syncRecentCommits env days))
            = processedSHAs cache0 @ [commit_sha c1, commit_sha c2, commit_sha c3])
    \<and> totalProcessed (finalCache (syncRecentCommits env days)) = totalProcessed cache0 + 3"
proof -
  let ?tr3 = "[ListCommits None 10, ListCommits (Some days) 50, ListCommits (Some 30) 50]"
  let ?init = "\<lparr>cache = cache0, processedCount = 0, skippedCount = 0, trace = ?tr3\<rparr>"
  let ?fin = "syncLoop env ?init [c1, c2, c3]"
  have run: "syncRecentCommits env days = processCommits env cache0 ?tr3 [c1, c2, c3]"
    using assms(1,2,3,4) by (simp add: syncRecentCommits_def numeral_2_eq_2)
  have d: "distinct (map commit_sha [c1, c2, c3])" using assms(5) by simp
  have f: "set (map commit_sha [c1, c2, c3]) \<inter> set (processedSHAs (cache ?init)) = {}"
    using assms(6) by simp
  note loop = syncLoop_all_fresh [OF d f assms(7) assms(8)]
  have l1: "processedCount ?fin = 3" using loop by simp
  have l2: "skippedCount ?fin = 0" using loop by simp
  have l3: "processedSHAs (cache ?fin)
              = processedSHAs cache0 @ [commit_sha c1, commit_sha c2, commit_sha c3]"
    using loop by simp
  have l4: "totalProcessed (cache ?fin) = totalProcessed cache0 + 3" using loop by simp
  have l5: "map kindOf (trace ?fin)
       = [KList, KList, KList, KDetails, KFiles, KCreate, KSleep,
          KDetails, KFiles, KCreate, KSleep, KDetails, KFiles, KCreate, KSleep]"
    using loop by (simp add: numeral_3_eq_3)
  have k: "map kindOf (calls (syncRecentCommits env days))
       = [KList, KList, KList, KDetails, KFiles, KCreate, KSleep,
          KDetails, KFiles, KCreate, KSleep, KDetails, KFiles, KCreate, KSleep, KWrite]"
    unfolding run using l5 by (simp add: processCommits_def saveCache_def Let_def)
  have cnt: "\<And>k. countKind k (calls (syncRecentCommits env days))
       = length (filter (\<lambda>x. x = k) (map kindOf (calls (syncRecentCommits env days))))"
    by (simp add: countKind_def filter_map comp_def)
  have k1: "countKind KDetails (calls (syncRecentCommits env days)) = 3"
    unfolding cnt k by simp
  have k2: "countKind KCreate (calls (syncRecentCommits env days)) = 3"
    unfolding cnt k by simp
  have k3: "countKind KSleep (calls (syncRecentCommits env days)) = 3"
    unfolding cnt k by simp
  have o: "outcome (syncRecentCommits env days) = Completed 3 0"
    unfolding run using l1 l2 by (simp add: processCommits_def Let_def)
  have fc: "finalCache (syncRecentCommits env days)
              = (cleanupCache (cache ?fin))\<lparr>lastSync := nowISO env (length (trace ?fin))\<rparr>"
    unfolding run by (simp add: processCommits_def Let_def)
  have p: "processedSHAs (finalCache (syncRecentCommits env days))
        = sliceFromEnd MAX_CACHE_SIZE
            (processedSHAs cache0 @ [commit_sha c1, commit_sha c2, commit_sha c3])"
    unfolding fc using l3 by (simp add: cleanupCache_def sliceFromEnd_def)
  have p': "length (processedSHAs cache0) + 3 \<le> MAX_CACHE_SIZE \<longrightarrow>
          processedSHAs (finalCache (syncRecentCommits env days))
            = processedSHAs cache0 @ [commit_sha c1, commit_sha c2, commit_sha c3]"
    unfolding p by (simp add: sliceFromEnd_def)
  have t: "totalProcessed (finalCache (syncRecentCommits env days)) = totalProcessed cache0 + 3"
    unfolding fc using l4 by (simp add: cleanupCache_def)
  from k k1 k2 k3 o p p' t show ?thesis by blast
qed

theorem fallback_three_commits_witness:
  "listCommits fallbackEnv 2 (Some 30) 50 = Some [summaryOf shaA, summaryOf shaB, summaryOf shaC]
   \<and> countKind KDetails (calls (syncRecentCommits fallbackEnv 7)) = 3
   \<and> countKind KCreate (calls (syncRecentCommits fallbackEnv 7)) = 3
   \<and> countKind KSleep (calls (syncRecentCommits fallbackEnv 7)) = 3
   \<and> outcome (syncRecentCommits fallbackEnv 7) = Completed 3 0
   \<and> processedSHAs (finalCache (syncRecentCommits fallbackEnv 7)) = [shaA, shaB, shaC]"
proof -
  have h0: "listCommits fallbackEnv 0 None 10 = Some []"
    by (simp add: fallbackEnv_def demoEnv_def)
  have h1: "listCommits fallbackEnv 1 (Some 7) 50 = Some []"
    by (simp add: fallbackEnv_def demoEnv_def)
  have h2: "listCommits fallbackEnv 2 (Some 30) 50
              = Some [summaryOf shaA, summaryOf shaB, summaryOf shaC]"
    by (simp add: fallbackEnv_def demoEnv_def)
  have h3: "emptyCache ''2025-09-06T00:00:00.000Z''
              = loadCache (jsonParse fallbackEnv) (nowISO fallbackEnv 0) (cacheFile fallbackEnv)"
    by (simp add: fallbackEnv_def demoEnv_def loadCache_def loadCacheTry_def)
  have h4: "distinct [commit_sha (summaryOf shaA), commit_sha (summaryOf shaB),
                      commit_sha (summaryOf shaC)]"
    by (simp add: summaryOf_def shaA_def shaB_def shaC_def)
  have h5: "set [commit_sha (summaryOf shaA), commit_sha (summaryOf shaB),
                 commit_sha (summaryOf shaC)]
              \<inter> set (processedSHAs (emptyCache ''2025-09-06T00:00:00.000Z'')) = {}"
    by (simp add: emptyCache_def)
  have h6: "\<And>t c. c \<in> set [summaryOf shaA, summaryOf shaB, summaryOf shaC]
              \<Longrightarrow> getCommit fallbackEnv t (commit_sha c) \<noteq> None"
    by (simp add: fallbackEnv_def demoEnv_def)
  have h7: "\<forall>tr c cd. c \<in> set [summaryOf shaA, summaryOf shaB, summaryOf shaC] \<longrightarrow>
           fst (getCommitDetails fallbackEnv tr (commit_sha c)) = Some cd \<longrightarrow>
           fst (createNotionCommit fallbackEnv (tr @ [GetCommit Details (commit_sha c)]) cd)"
  proof (intro allI impI)
    fix tr c cd
    assume "fst (getCommitDetails fallbackEnv tr (commit_sha c)) = Some cd"
    then have "date cd = ''2025-09-05T18:20:43Z''"
      by (auto simp: getCommitDetails_def fallbackEnv_def demoEnv_def demoCommit_def
          orString_def)
    then show "fst (createNotionCommit fallbackEnv (tr @ [GetCommit Details (commit_sha c)]) cd)"
      by (simp add: createNotionCommit_def fallbackEnv_def demoEnv_def split: prod.splits)
  qed
  have bad: "isoDay fallbackEnv ''yesterday'' = None"
    by (simp add: fallbackEnv_def demoEnv_def)
  from fallback_three_commits [OF h0 h1 h2 h3 h4 h5 h6 h7] h2
  show ?thesis by (simp add: emptyCache_def MAX_CACHE_SIZE_def summaryOf_def sliceFromEnd_def)
qed

text \<open>
  Claim C3. For every cache, \<open>cleanupCache\<close> (the trim, with the limit \<open>MAX_CACHE_SIZE\<close>,
  which is 1000) leaves at most \<open>MAX_CACHE_SIZE\<close> identifiers: exactly the last
  \<open>MAX_CACHE_SIZE\<close> of the sequence before the trim, in their order, and the whole
  sequence when it was no longer than the limit. The fields \<open>lastSync\<close> and
  \<open>totalProcessed\<close> are not touched.
\<close>
theorem cleanupCache_keeps_most_recent:
  "length (processedSHAs (cleanupCache c)) \<le> MAX_CACHE_SIZE
   \<and> MAX_CACHE_SIZE = 1000
   \<and> length (processedSHAs (cleanupCache c)) = min (length (processedSHAs c)) MAX_CACHE_SIZE
   \<and> processedSHAs (cleanupCache c)
       = drop (length (processedSHAs c) - MAX_CACHE_SIZE) (processedSHAs c)
   \<and> (length (processedSHAs c) \<le> MAX_CACHE_SIZE
        \<longrightarrow> processedSHAs (cleanupCache c) = processedSHAs c)
   \<and> lastSync (cleanupCache c) = lastSync c
   \<and> totalProcessed (cleanupCache c) = totalProcessed c"
  by (simp add: cleanupCache_def sliceFromEnd_def MAX_CACHE_SIZE_def)

theorem cleanupCache_keeps_most_recent_witness:
  "length (processedSHAs (cache demoState)) \<le> MAX_CACHE_SIZE
   \<and> processedSHAs (cleanupCache (cache demoState)) = [shaA]
   \<and> processedSHAs (cleanupCache
         \<lparr>processedSHAs = replicate 1000 ''old'' @ [''new''], lastSync = [],
           totalProcessed = 1001\<rparr>)
       = replicate 999 ''old'' @ [''new'']"
proof -
  have a: "length (processedSHAs (cache demoState)) \<le> MAX_CACHE_SIZE"
    by (simp add: demoState_def MAX_CACHE_SIZE_def)
  with cleanupCache_keeps_most_recent [of "cache demoState"]
  have b: "processedSHAs (cleanupCache (cache demoState)) = [shaA]"
    by (simp add: demoState_def)
  let ?c = "\<lparr>processedSHAs = replicate 1000 ''old'' @ [''new''], lastSync = [],
             totalProcessed = 1001\<rparr>"
  have len: "length (processedSHAs ?c) - MAX_CACHE_SIZE = 1"
    unfolding MAX_CACHE_SIZE_def by (simp only: SyncCache.simps length_append length_replicate list.size)
  have "processedSHAs (cleanupCache ?c) = drop 1 (processedSHAs ?c)"
    using cleanupCache_keeps_most_recent [of ?c] unfolding len by blast
  also have "\<dots> = replicate 999 ''old'' @ [''new'']"
    by (simp only: SyncCache.simps drop_append drop_replicate length_replicate) simp
  finally show ?thesis using a b by blast
qed

text \<open>
  Claim C4. When the request for the primary window returns no commit, the next call is
  the same request with a window of 30 days and a page size of 50. When that one returns
  no commit either, the run ends there: these three requests are all it did (no detail
  fetch, no file fetch, no row write, no delay, no cache write), the outcome is not an
  error, and \<open>main\<close> returns without \<^verbatim>\<open>process.exit\<close>.
\<close>
theorem empty_windows_end_quietly:
  assumes "listCommits env 0 None 10 = Some allCommits"
    and "listCommits env 1 (Some days) 50 = Some []"
  shows "take 3 (calls (syncRecentCommits env days))
           = [ListCommits None 10, ListCommits (Some days) 50, ListCommits (Some 30) 50]
    \<and> (listCommits env 2 (Some 30) 50 = Some [] \<longrightarrow>
         syncRecentCommits env days
           = \<lparr>outcome = NoCommitsFound,
              finalCache = loadCache (jsonParse env) (nowISO env 0) (cacheFile env),
              calls = [ListCommits None 10, ListCommits (Some days) 50,
                       ListCommits (Some 30) 50]\<rparr>
         \<and> outcome (syncRecentCommits env days) \<noteq> SyncError
         \<and> countKind KDetails (calls (syncRecentCommits env days)) = 0
         \<and> countKind KFiles (calls (syncRecentCommits env days)) = 0
         \<and> countKind KCreate (calls (syncRecentCommits env days)) = 0
         \<and> countKind KSleep (calls (syncRecentCommits env days)) = 0
         \<and> countKind KWrite (calls (syncRecentCommits env days)) = 0
         \<and> (\<forall>args. ''--clear-cache'' \<notin> set args \<and> daysOfArgs args = Some days
                \<and> 1 \<le> days \<and> days \<le> 365
                \<and> \<not> falsy (NOTION_TOKEN env) \<and> \<not> falsy (GITHUB_TOKEN env)
              \<longrightarrow> main env args = Synced days (syncRecentCommits env days)))"
proof -
  let ?tr3 = "[ListCommits None 10, ListCommits (Some days) 50, ListCommits (Some 30) 50]"
  let ?loaded = "loadCache (jsonParse env) (nowISO env 0) (cacheFile env)"
  have first: "take 3 (calls (syncRecentCommits env days)) = ?tr3"
  proof (cases "listCommits env 2 (Some 30) 50")
    case None
    with assms show ?thesis by (simp add: syncRecentCommits_def numeral_2_eq_2)
  next
    case (Some longer)
    show ?thesis
    proof (cases "longer = []")
      case True
      with Some assms show ?thesis by (simp add: syncRecentCommits_def numeral_2_eq_2)
    next
      case False
      with Some assms have "syncRecentCommits env days = processCommits env ?loaded ?tr3 longer"
        by (simp add: syncRecentCommits_def numeral_2_eq_2)
      then show ?thesis using processCommits_calls_prefix [of ?tr3 env ?loaded longer]
        by (simp add: numeral_3_eq_3)
    qed
  qed
  have quiet: "listCommits env 2 (Some 30) 50 = Some [] \<longrightarrow>
         syncRecentCommits env days
           = \<lparr>outcome = NoCommitsFound, finalCache = ?loaded, calls = ?tr3\<rparr>"
    using assms by (simp add: syncRecentCommits_def numeral_2_eq_2)
  have mainrun: "\<forall>args. ''--clear-cache'' \<notin> set args \<and> daysOfArgs args = Some days
                \<and> 1 \<le> days \<and> days \<le> 365
                \<and> \<not> falsy (NOTION_TOKEN env) \<and> \<not> falsy (GITHUB_TOKEN env)
              \<longrightarrow> main env args = Synced days (syncRecentCommits env days)"
    by (auto simp: main_def)
  from first quiet mainrun show ?thesis by (auto simp: countKind_def)
qed

theorem empty_windows_end_quietly_witness:
  "listCommits demoEnv 0 None 10 = Some []
   \<and> listCommits demoEnv 1 (Some 7) 50 = Some []
   \<and> listCommits demoEnv 2 (Some 30) 50 = Some []
   \<and> calls (syncRecentCommits demoEnv 7)
       = [ListCommits None 10, ListCommits (Some 7) 50, ListCommits (Some 30) 50]
   \<and> outcome (syncRecentCommits demoEnv 7) = NoCommitsFound
   \<and> main demoEnv [''7''] = Synced 7 (syncRecentCommits demoEnv 7)"
proof -
  have h0: "listCommits demoEnv 0 None 10 = Some []" by (simp add: demoEnv_def)
  have h1: "listCommits demoEnv 1 (Some 7) 50 = Some []" by (simp add: demoEnv_def)
  have h2: "listCommits demoEnv 2 (Some 30) 50 = Some []" by (simp add: demoEnv_def)
  have a: "''--clear-cache'' \<notin> set [''7'']" by simp
  have d: "daysOfArgs [''7''] = Some 7"
    by (simp add: daysOfArgs_def parseInt_def isWhiteSpace_def isRadixDigit_def digitValue_def
        digitsValue_def)
  have t: "\<not> falsy (NOTION_TOKEN demoEnv) \<and> \<not> falsy (GITHUB_TOKEN demoEnv)"
    by (simp add: falsy_def demoEnv_def)
  from empty_windows_end_quietly [OF h0 h1] h2 a d t
  have "calls (syncRecentCommits demoEnv 7)
       = [ListCommits None 10, ListCommits (Some 7) 50, ListCommits (Some 30) 50]
   \<and> outcome (syncRecentCommits demoEnv 7) = NoCommitsFound
   \<and> main demoEnv [''7''] = Synced 7 (syncRecentCommits demoEnv 7)"
    by simp
  with h0 h1 h2 show ?thesis by simp
qed

text \<open>
  Claim C5. \<open>detectFeatureArea\<close> is a function of its two arguments alone. On every
  input it returns what first-match evaluation of the rule table returns on the
  lower-cased message and the lower-cased, space-joined file paths: the label of a rule
  that matches while no earlier rule does, and \<open>Chat Interface\<close> when no rule matches.
  The message \<open>fix chat bug\<close> with no files matches rule 1 and rule 8 and is labelled
  \<open>Chat Interface\<close>, the label of rule 1, which is also the default.
\<close>
theorem detectFeatureArea_first_match_wins:
  assumes "m = toLowerCase msg"
    and "f = toLowerCase (joinSpace (case fs of None \<Rightarrow> [] | Some x \<Rightarrow> x))"
  shows "detectFeatureArea msg fs = firstMatch featureRules m f ''Chat Interface''
    \<and> (\<forall>i < length featureRules.
          fst (featureRules ! i) m f \<and> (\<forall>j<i. \<not> fst (featureRules ! j) m f)
          \<longrightarrow> detectFeatureArea msg fs = snd (featureRules ! i))
    \<and> ((\<forall>r \<in> set featureRules. \<not> fst r m f) \<longrightarrow> detectFeatureArea msg fs = ''Chat Interface'')
    \<and> map snd featureRules
        = [''Chat Interface'', ''BigQuery Integration'', ''AI/Claude API'', ''Database/Supabase'',
           ''UI/UX'', ''Testing'', ''Deployment'', ''Bug Fix'']
    \<and> detectFeatureArea ''fix chat bug'' (Some []) = ''Chat Interface''
    \<and> detectFeatureArea ''fix chat bug'' None = ''Chat Interface''
    \<and> fst (featureRules ! 0) ''fix chat bug'' []
    \<and> fst (featureRules ! 7) ''fix chat bug'' []"
proof -
  have tab: "detectFeatureArea msg fs = firstMatch featureRules m f ''Chat Interface''"
    using assms by (simp add: detectFeatureArea_table)
  have idx: "\<forall>i < length featureRules.
          fst (featureRules ! i) m f \<and> (\<forall>j<i. \<not> fst (featureRules ! j) m f)
          \<longrightarrow> detectFeatureArea msg fs = snd (featureRules ! i)"
    using tab firstMatch_index [of _ featureRules m f] by auto
  have dflt: "(\<forall>r \<in> set featureRules. \<not> fst r m f) \<longrightarrow> detectFeatureArea msg fs = ''Chat Interface''"
    using tab firstMatch_default [of featureRules m f] by auto
  have labels: "map snd featureRules
        = [''Chat Interface'', ''BigQuery Integration'', ''AI/Claude API'', ''Database/Supabase'',
           ''UI/UX'', ''Testing'', ''Deployment'', ''Bug Fix'']"
    by (simp add: featureRules_def)
  have ex1: "detectFeatureArea ''fix chat bug'' (Some []) = ''Chat Interface''"
    by (simp add: detectFeatureArea_def toLowerCase_def lowerChar_def)
  have ex2: "detectFeatureArea ''fix chat bug'' None = ''Chat Interface''"
    by (simp add: detectFeatureArea_def toLowerCase_def lowerChar_def)
  have r1: "fst (featureRules ! 0) ''fix chat bug'' []"
    by (simp add: featureRules_def)
  have r8: "fst (featureRules ! 7) ''fix chat bug'' []"
    by (simp add: featureRules_def)
  from tab idx dflt labels ex1 ex2 r1 r8 show ?thesis by blast
qed

theorem detectFeatureArea_first_match_wins_witness:
  "toLowerCase ''Fix Chat bug'' = ''fix chat bug''
   \<and> fst (featureRules ! 0) ''fix chat bug'' []
   \<and> detectFeatureArea ''Fix Chat bug'' (Some []) = ''Chat Interface''
   \<and> toLowerCase ''Update README'' = ''update readme''
   \<and> detectFeatureArea ''Update README'' (Some [''README.md'']) = ''Chat Interface''"
proof -
  have m1: "''fix chat bug'' = toLowerCase ''Fix Chat bug''"
    by (simp add: toLowerCase_def lowerChar_def)
  have f1: "[] = toLowerCase (joinSpace (case Some [] of None \<Rightarrow> [] | Some x \<Rightarrow> x))"
    by (simp add: toLowerCase_def)
  have m2: "''update readme'' = toLowerCase ''Update README''"
    by (simp add: toLowerCase_def lowerChar_def)
  have f2: "''readme.md'' = toLowerCase (joinSpace (case Some [''README.md''] of None \<Rightarrow> [] | Some x \<Rightarrow> x))"
    by (simp add: toLowerCase_def lowerChar_def)
  have none: "\<forall>r \<in> set featureRules. \<not> fst r ''update readme'' ''readme.md''"
    by (simp add: featureRules_def)
  have r1: "fst (featureRules ! 0) ''fix chat bug'' []"
    by (simp add: featureRules_def)
  have len: "0 < length featureRules" by (simp add: featureRules_def)
  from detectFeatureArea_first_match_wins [OF m1 f1] r1 len
  have a: "detectFeatureArea ''Fix Chat bug'' (Some []) = snd (featureRules ! 0)" by blast
  have b: "snd (featureRules ! 0) = ''Chat Interface''" by (simp add: featureRules_def)
  from detectFeatureArea_first_match_wins [OF m2 f2] none
  have c: "detectFeatureArea ''Update README'' (Some [''README.md'']) = ''Chat Interface''" by blast
  from m1 m2 r1 a b c show ?thesis by simp
qed

text \<open>
  Claim C6. \<open>detectImpactLevel\<close> adds the additions and the deletions and evaluates its
  rule table on the lower-cased message and that total, first match first. So
  \<open>feat: add widget\<close> with 10 and 5 lines is a \<open>Major Feature\<close>, \<open>update copy\<close> with
  60 and 0 lines a \<open>Minor Feature\<close>, and \<open>small tweak\<close> with 5 and 2 lines a
  \<open>Minor Feature\<close>.
\<close>
theorem detectImpactLevel_examples:
  "detectImpactLevel msg a d =
     firstMatch impactRules (toLowerCase msg)
       ((case a of None \<Rightarrow> 0 | Some x \<Rightarrow> x) + (case d of None \<Rightarrow> 0 | Some x \<Rightarrow> x))
       ''Minor Feature''
   \<and> detectImpactLevel ''feat: add widget'' (Some 10) (Some 5) = ''Major Feature''
   \<and> detectImpactLevel ''update copy'' (Some 60) (Some 0) = ''Minor Feature''
   \<and> detectImpactLevel ''small tweak'' (Some 5) (Some 2) = ''Minor Feature''"
proof -
  have e1: "detectImpactLevel ''feat: add widget'' (Some 10) (Some 5) = ''Major Feature''"
    by (simp add: detectImpactLevel_def toLowerCase_def lowerChar_def)
  have e2: "detectImpactLevel ''update copy'' (Some 60) (Some 0) = ''Minor Feature''"
    by (simp add: detectImpactLevel_def toLowerCase_def lowerChar_def)
  have e3: "detectImpactLevel ''small tweak'' (Some 5) (Some 2) = ''Minor Feature''"
    by (simp add: detectImpactLevel_def toLowerCase_def lowerChar_def)
  from detectImpactLevel_table [of msg a d] e1 e2 e3 show ?thesis by blast
qed

text \<open>
  Claim C7. For a commit that is not in the cache: when the detail fetch fails, the
  iteration consists of that one fetch, with no delay; when the fetch succeeds and the row
  write fails, it consists of one detail fetch, one file fetch, at most one page creation
  and the delay. In both cases the cache, the processed counter and the skip counter are
  what they were, nothing is tried a second time, and the loop goes on with the next
  commit.
\<close>
theorem failed_commit_changes_nothing:
  assumes "\<not> commitExistsInCache (commit_sha c) (cache st)"
  shows "(fst (getCommitDetails env (trace st) (commit_sha c)) = None \<longrightarrow>
            processCommit env st c
              = st\<lparr>trace := trace st @ [GetCommit Details (commit_sha c)]\<rparr>)
    \<and> (\<forall>cd. fst (getCommitDetails env (trace st) (commit_sha c)) = Some cd
           \<and> \<not> fst (createNotionCommit env (trace st @ [GetCommit Details (commit_sha c)]) cd)
         \<longrightarrow> processCommit env st c
              = st\<lparr>trace := trace st
                     @ [GetCommit Details (commit_sha c), GetCommit Files (sha cd)]
                     @ (case isoDay env (date cd) of
                          None \<Rightarrow> []
                        | Some day \<Rightarrow>
                            [CreatePage (notionRow cd
                               (fst (getCommitFiles env
                                      (trace st @ [GetCommit Details (commit_sha c)]) (sha cd)))
                               day)])
                     @ [Sleep 1000]\<rparr>)
    \<and> (fst (getCommitDetails env (trace st) (commit_sha c)) = None
        \<or> (\<exists>cd. fst (getCommitDetails env (trace st) (commit_sha c)) = Some cd
              \<and> \<not> fst (createNotionCommit env
                         (trace st @ [GetCommit Details (commit_sha c)]) cd))
       \<longrightarrow> cache (processCommit env st c) = cache st
         \<and> processedCount (processCommit env st c) = processedCount st
         \<and> skippedCount (processCommit env st c) = skippedCount st
         \<and> countKind KDetails (drop (length (trace st)) (trace (processCommit env st c))) = 1
         \<and> countKind KCreate (drop (length (trace st)) (trace (processCommit env st c))) \<le> 1)
    \<and> syncLoop env st (c # cs) = syncLoop env (processCommit env st c) cs"
proof -
  let ?tr = "trace st @ [GetCommit Details (commit_sha c)]"
  have a: "fst (getCommitDetails env (trace st) (commit_sha c)) = None \<longrightarrow>
            processCommit env st c = st\<lparr>trace := ?tr\<rparr>"
    using assms by (simp add: getCommitDetails_None processCommit_no_details)
  have b: "\<forall>cd. fst (getCommitDetails env (trace st) (commit_sha c)) = Some cd
           \<and> \<not> fst (createNotionCommit env ?tr cd)
         \<longrightarrow> processCommit env st c
              = st\<lparr>trace := trace st
                     @ [GetCommit Details (commit_sha c), GetCommit Files (sha cd)]
                     @ (case isoDay env (date cd) of
                          None \<Rightarrow> []
                        | Some day \<Rightarrow>
                            [CreatePage (notionRow cd
                               (fst (getCommitFiles env ?tr (sha cd))) day)])
                     @ [Sleep 1000]\<rparr>"
  proof (intro allI impI)
    fix cd
    assume h: "fst (getCommitDetails env (trace st) (commit_sha c)) = Some cd
           \<and> \<not> fst (createNotionCommit env ?tr cd)"
    then have "processCommit env st c
                 = st\<lparr>trace := snd (createNotionCommit env ?tr cd) @ [Sleep 1000]\<rparr>"
      using processCommit_details [OF assms, of env cd] by simp
    then show "processCommit env st c
              = st\<lparr>trace := trace st
                     @ [GetCommit Details (commit_sha c), GetCommit Files (sha cd)]
                     @ (case isoDay env (date cd) of
                          None \<Rightarrow> []
                        | Some day \<Rightarrow>
                            [CreatePage (notionRow cd
                               (fst (getCommitFiles env ?tr (sha cd))) day)])
                     @ [Sleep 1000]\<rparr>"
      by (simp add: createNotionCommit_trace)
  qed
  have c: "fst (getCommitDetails env (trace st) (commit_sha c)) = None
        \<or> (\<exists>cd. fst (getCommitDetails env (trace st) (commit_sha c)) = Some cd
              \<and> \<not> fst (createNotionCommit env ?tr cd))
       \<longrightarrow> cache (processCommit env st c) = cache st
         \<and> processedCount (processCommit env st c) = processedCount st
         \<and> skippedCount (processCommit env st c) = skippedCount st
         \<and> countKind KDetails (drop (length (trace st)) (trace (processCommit env st c))) = 1
         \<and> countKind KCreate (drop (length (trace st)) (trace (processCommit env st c))) \<le> 1"
  proof
    assume "fst (getCommitDetails env (trace st) (commit_sha c)) = None
        \<or> (\<exists>cd. fst (getCommitDetails env (trace st) (commit_sha c)) = Some cd
              \<and> \<not> fst (createNotionCommit env ?tr cd))"
    then show "cache (processCommit env st c) = cache st
         \<and> processedCount (processCommit env st c) = processedCount st
         \<and> skippedCount (processCommit env st c) = skippedCount st
         \<and> countKind KDetails (drop (length (trace st)) (trace (processCommit env st c))) = 1
         \<and> countKind KCreate (drop (length (trace st)) (trace (processCommit env st c))) \<le> 1"
    proof
      assume "fst (getCommitDetails env (trace st) (commit_sha c)) = None"
      with a show ?thesis by (simp add: countKind_def)
    next
      assume "\<exists>cd. fst (getCommitDetails env (trace st) (commit_sha c)) = Some cd
              \<and> \<not> fst (createNotionCommit env ?tr cd)"
      then obtain cd where "fst (getCommitDetails env (trace st) (commit_sha c)) = Some cd
              \<and> \<not> fst (createNotionCommit env ?tr cd)" by blast
      with b show ?thesis by (simp add: countKind_def split: option.splits)
    qed
  qed
  have d: "syncLoop env st (c # cs) = syncLoop env (processCommit env st c) cs" by simp
  from a b c d show ?thesis by blast
qed

theorem failed_commit_changes_nothing_witness:
  "\<not> commitExistsInCache (commit_sha (summaryOf shaB)) (cache demoState)
   \<and> fst (getCommitDetails noDetailsEnv (trace demoState) (commit_sha (summaryOf shaB))) = None
   \<and> processCommit noDetailsEnv demoState (summaryOf shaB)
       = demoState\<lparr>trace := [GetCommit Details shaB]\<rparr>
   \<and> fst (getCommitDetails noPagesEnv (trace demoState) (commit_sha (summaryOf shaB))) \<noteq> None
   \<and> cache (processCommit noPagesEnv demoState (summaryOf shaB)) = cache demoState
   \<and> processedCount (processCommit noPagesEnv demoState (summaryOf shaB)) = 0
   \<and> skippedCount (processCommit noPagesEnv demoState (summaryOf shaB)) = 0
   \<and> map kindOf (trace (processCommit noPagesEnv demoState (summaryOf shaB)))
       = [KDetails, KFiles, KCreate, KSleep]"
proof -
  have h: "\<not> commitExistsInCache (commit_sha (summaryOf shaB)) (cache demoState)"
    by (simp add: commitExistsInCache_def summaryOf_def demoState_def shaA_def shaB_def)
  have n: "fst (getCommitDetails noDetailsEnv (trace demoState) (commit_sha (summaryOf shaB))) = None"
    by (simp add: getCommitDetails_def noDetailsEnv_def demoEnv_def)
  obtain cd where cd: "fst (getCommitDetails noPagesEnv (trace demoState) (commit_sha (summaryOf shaB))) = Some cd"
    and dt: "date cd = ''2025-09-05T18:20:43Z''"
    by (simp add: getCommitDetails_def noPagesEnv_def demoEnv_def demoCommit_def orString_def)
  have f: "\<not> fst (createNotionCommit noPagesEnv
             (trace demoState @ [GetCommit Details (commit_sha (summaryOf shaB))]) cd)"
    by (simp add: createNotionCommit_def noPagesEnv_def demoEnv_def split: prod.splits)
  have day: "isoDay noPagesEnv (date cd) = Some ''2025-09-05''"
    using dt by (simp add: noPagesEnv_def demoEnv_def)
  note t1 = failed_commit_changes_nothing [OF h, of noDetailsEnv "[]"]
  note t2 = failed_commit_changes_nothing [OF h, of noPagesEnv "[]"]
  from t1 n have r1: "processCommit noDetailsEnv demoState (summaryOf shaB)
       = demoState\<lparr>trace := trace demoState @ [GetCommit Details (commit_sha (summaryOf shaB))]\<rparr>"
    by blast
  from t2 cd f have r2: "processCommit noPagesEnv demoState (summaryOf shaB)
              = demoState\<lparr>trace := trace demoState
                     @ [GetCommit Details (commit_sha (summaryOf shaB)), GetCommit Files (sha cd)]
                     @ (case isoDay noPagesEnv (date cd) of
                          None \<Rightarrow> []
                        | Some day \<Rightarrow>
                            [CreatePage (notionRow cd
                               (fst (getCommitFiles noPagesEnv
                                      (trace demoState @ [GetCommit Details (commit_sha (summaryOf shaB))]) (sha cd)))
                               day)])
                     @ [Sleep 1000]\<rparr>"
    by blast
  from h n cd r1 r2 day show ?thesis
    by (simp add: demoState_def summaryOf_def)
qed

text \<open>
  Claim C8. When the cache file is missing, or when its contents do not parse as JSON,
  \<open>loadCache\<close> returns the empty cache: no identifiers, a count of zero and the current
  time as \<open>lastSync\<close>. The body of its \<^verbatim>\<open>try\<close> block then falls through (missing file)
  or throws a SyntaxError (corrupt file), and \<open>loadCache\<close> itself returns a cache in
  both cases: nothing is raised to the caller.
\<close>
theorem loadCache_missing_or_corrupt:
  assumes "file = Missing \<or> (\<exists>text. file = Contents text \<and> parse text = None)"
  shows "loadCache parse now file = \<lparr>processedSHAs = [], lastSync = now, totalProcessed = 0\<rparr>
    \<and> (file = Missing \<longrightarrow> loadCacheTry parse now file = Inr None)
    \<and> (file \<noteq> Missing \<longrightarrow> loadCacheTry parse now file = Inl SyntaxError)"
  using assms by (auto simp: loadCache_def loadCacheTry_def emptyCache_def)

theorem loadCache_missing_or_corrupt_witness:
  "loadCache (\<lambda>text. None) ''2025-09-06T00:00:00.000Z'' Missing
     = \<lparr>processedSHAs = [], lastSync = ''2025-09-06T00:00:00.000Z'', totalProcessed = 0\<rparr>
   \<and> loadCache (\<lambda>text. None) ''2025-09-06T00:00:00.000Z'' (Contents ''{oops'')
     = \<lparr>processedSHAs = [], lastSync = ''2025-09-06T00:00:00.000Z'', totalProcessed = 0\<rparr>"
proof -
  have h1: "Missing = Missing \<or> (\<exists>text. Missing = Contents text \<and> (\<lambda>text. None :: JsonData option) text = None)"
    by simp
  have h2: "Contents ''{oops'' = Missing
     \<or> (\<exists>text. Contents ''{oops'' = Contents text \<and> (\<lambda>text. None :: JsonData option) text = None)"
    by simp
  from loadCache_missing_or_corrupt [OF h1] loadCache_missing_or_corrupt [OF h2]
  show ?thesis by blast
qed




text \<open>
  Claim C10 says that the record of the detail fetcher carries the full identifier. For a
  40-character identifier the record carries its first 7 characters only, and these are
  what the file fetch asks the host for.
\<close>
theorem commit_record_full_sha_counterexample:
  "map_option sha (fst (getCommitDetails demoEnv [] shaA)) = Some ''a1b2c3d''
   \<and> shaA \<noteq> ''a1b2c3d''
   \<and> length shaA = 40
   \<and> trace (processCommit demoEnv
              \<lparr>cache = emptyCache [], processedCount = 0, skippedCount = 0, trace = []\<rparr>
              (summaryOf shaA))
       = [GetCommit Details shaA, GetCommit Files ''a1b2c3d'',
          CreatePage (notionRow
            \<lparr>sha = ''a1b2c3d'', message = ''Update docs'', author = ''Ann'',
              date = ''2025-09-05T18:20:43Z'', url = ''https://example.org/c'',
              stats = Some \<lparr>additions = 3, deletions = 1, total = 4\<rparr>, files = Some 1\<rparr>
            [''README.md''] ''2025-09-05''),
          Sleep 1000]"
  by (simp add: getCommitDetails_def substring0_def demoEnv_def demoCommit_def shaA_def
      orString_def orNumber_def orArray_def processCommit_def commitExistsInCache_def
      emptyCache_def summaryOf_def createNotionCommit_def getCommitFiles_def)

text \<open>
  Claim C10, amended. Every record the detail fetcher returns for an identifier carries,
  as its \<open>sha\<close>, the first 7 characters of that identifier (the whole identifier when it
  has at most 7) and no other form of it: the truncation is what \<open>createNotionCommit\<close>
  fetches the file paths with and what it writes to the row.
\<close>
theorem commit_record_carries_short_sha:
  assumes "fst (getCommitDetails env tr ref) = Some cd"
  shows "sha cd = take 7 ref
    \<and> length (sha cd) \<le> 7
    \<and> (7 < length ref \<longrightarrow> sha cd \<noteq> ref)
    \<and> (length ref \<le> 7 \<longrightarrow> sha cd = ref)
    \<and> take (Suc (length tr')) (snd (createNotionCommit env tr' cd))
        = tr' @ [GetCommit Files (take 7 ref)]
    \<and> (\<forall>row. CreatePage row \<in> set (drop (length tr') (snd (createNotionCommit env tr' cd)))
          \<longrightarrow> prop_GitHubSHA row = take 7 ref)"
proof -
  have s: "sha cd = take 7 ref" using assms by (rule getCommitDetails_sha)
  have l: "length (sha cd) \<le> 7" using s by simp
  have n: "7 < length ref \<longrightarrow> sha cd \<noteq> ref"
  proof
    assume "7 < length ref"
    then have "length (take 7 ref) \<noteq> length ref" by simp
    then show "sha cd \<noteq> ref" using s by auto
  qed
  have e: "length ref \<le> 7 \<longrightarrow> sha cd = ref" using s by simp
  have f: "take (Suc (length tr')) (snd (createNotionCommit env tr' cd))
        = tr' @ [GetCommit Files (take 7 ref)]"
    using s by (simp add: createNotionCommit_trace)
  have r: "\<forall>row. CreatePage row \<in> set (drop (length tr') (snd (createNotionCommit env tr' cd)))
          \<longrightarrow> prop_GitHubSHA row = take 7 ref"
    using s by (auto simp: createNotionCommit_trace notionRow_def split: option.splits)
  from s l n e f r show ?thesis by blast
qed

theorem commit_record_carries_short_sha_witness:
  "fst (getCommitDetails demoEnv [] shaA) \<noteq> None
   \<and> map_option sha (fst (getCommitDetails demoEnv [] shaA)) = Some (take 7 shaA)
   \<and> take 7 shaA = ''a1b2c3d''"
proof -
  obtain cd where cd: "fst (getCommitDetails demoEnv [] shaA) = Some cd"
    by (simp add: getCommitDetails_def demoEnv_def)
  from commit_record_carries_short_sha [OF cd] have "sha cd = take 7 shaA" by blast
  with cd show ?thesis by (simp add: shaA_def)
qed

end
